theory Spec2Isabelle
  imports Complex_Main
begin

section \<open>ResumeFit Pro: response parsing and report assembly\<close>

text \<open>
  A shallow embedding of \<^verbatim>\<open>app1.py\<close>: the functions that parse the model's
  analysis text (match percentage, skills block, cover letter), the two PDF generators,
  the two chart builders, and the block of the script that runs after a successful
  analysis.

  Conventions of the embedding.
  \<^item> Text is a \<open>string\<close>: a list of 8-bit characters read as the code points 0..255
    (Latin-1, the range \<^verbatim>\<open>encode('latin-1')\<close> of the PDF generators accepts). On
    this range Python's \<^verbatim>\<open>\d\<close> is exactly \<open>0\<close>..\<open>9\<close> and \<^verbatim>\<open>\s\<close> (as
    \<^verbatim>\<open>str.strip\<close>) is 9..13, 28..32, 133 and 160.
  \<^item> \<^verbatim>\<open>re.search\<close> is modelled by the backtracking search it performs for the
    three patterns of the program: start positions from left to right, and at each
    start the alternatives in the engine's order of preference.
  \<^item> \<^verbatim>\<open>None\<close> is \<open>None\<close>; an exception that an \<^verbatim>\<open>except Exception\<close> clause
    catches is a value of \<open>py_exception\<close>.
  \<^item> The Streamlit calls are the events of a list, in the order the script makes them.
  \<^item> The FPDF class is a parameter (a record of its methods): it is a library.
\<close>

subsection \<open>Characters, \<^verbatim>\<open>int\<close> and \<^verbatim>\<open>str\<close>\<close>

definition is_digit :: "char \<Rightarrow> bool" where
  "is_digit c = (48 \<le> (of_char c :: nat) \<and> (of_char c :: nat) \<le> 57)"

definition digit_value :: "char \<Rightarrow> nat" where
  "digit_value c = (of_char c :: nat) - 48"

text \<open>\<^verbatim>\<open>int(ds)\<close> for a string of decimal digits (the only strings the program converts).\<close>

definition py_int :: "string \<Rightarrow> nat" where
  "py_int ds = foldl (\<lambda>a c. 10 * a + digit_value c) 0 ds"

definition digit_char :: "nat \<Rightarrow> char" where
  "digit_char d = char_of (48 + d)"

text \<open>\<^verbatim>\<open>str(n)\<close> for a non-negative integer: its decimal rendering, no leading zero.\<close>

fun py_str :: "nat \<Rightarrow> string" where
  "py_str n = (if n < 10 then [digit_char n] else py_str (n div 10) @ [digit_char (n mod 10)])"

declare py_str.simps [simp del]

subsection \<open>The match percentage\<close>

text \<open>
  \<^verbatim>\<open>
  def extract_match_percentage(text):
      if text:
          match = re.search(r'(\d{1,3})%', text)
          return min(int(match.group(1)), 100) if match else None
      return None
  \<close>
  At one start position the engine tries the greedy \<^verbatim>\<open>\d{1,3}\<close> with three digits,
  then two, then one, each followed by the percent sign; \<open>try_digits k\<close> is one such
  attempt and returns group 1.
\<close>

definition try_digits :: "nat \<Rightarrow> string \<Rightarrow> string option" where
  "try_digits k s =
     (if k < length s \<and> list_all is_digit (take k s) \<and> s ! k = CHR ''%''
      then Some (take k s) else None)"

definition match_pct_at :: "string \<Rightarrow> string option" where
  "match_pct_at s =
     (case try_digits 3 s of Some g \<Rightarrow> Some g
      | None \<Rightarrow> (case try_digits 2 s of Some g \<Rightarrow> Some g
      | None \<Rightarrow> try_digits 1 s))"

fun re_search_pct :: "string \<Rightarrow> string option" where
  "re_search_pct [] = match_pct_at []"
| "re_search_pct (c # cs) =
     (case match_pct_at (c # cs) of Some g \<Rightarrow> Some g | None \<Rightarrow> re_search_pct cs)"

definition extract_match_percentage :: "string \<Rightarrow> nat option" where
  "extract_match_percentage text =
     (if text \<noteq> [] then
        (case re_search_pct text of
           Some g \<Rightarrow> Some (min (py_int g) 100)
         | None \<Rightarrow> None)
      else None)"

text \<open>
  What the claims call a match: \<open>pct_at text i k\<close> says that \<open>k\<close> decimal digits
  (one to three) start at index \<open>i\<close> of \<open>text\<close> and a percent sign follows them.
\<close>

definition pct_at :: "string \<Rightarrow> nat \<Rightarrow> nat \<Rightarrow> bool" where
  "pct_at text i k =
     (1 \<le> k \<and> k \<le> 3 \<and> i + k < length text \<and>
      list_all is_digit (take k (drop i text)) \<and> text ! (i + k) = CHR ''%'')"

subsection \<open>The cover letter\<close>

text \<open>
  \<^verbatim>\<open>
  cover_letter_match = re.search(
      r"Cover Letter:\s*(.*?)(?:ATS Formatting Check:|Interview Questions:|$)",
      analysis, re.DOTALL)
  if cover_letter_match:
      cover_letter = cover_letter_match.group(1).strip()
  \<close>
\<close>

definition is_space :: "char \<Rightarrow> bool" where
  "is_space c =
     (let n = (of_char c :: nat)
      in (9 \<le> n \<and> n \<le> 13) \<or> (28 \<le> n \<and> n \<le> 32) \<or> n = 133 \<or> n = 160)"

definition py_lstrip :: "string \<Rightarrow> string" where
  "py_lstrip s = dropWhile is_space s"

definition py_rstrip :: "string \<Rightarrow> string" where
  "py_rstrip s = rev (dropWhile is_space (rev s))"

text \<open>\<^verbatim>\<open>s.strip()\<close>: leading and trailing whitespace removed.\<close>

definition py_strip :: "string \<Rightarrow> string" where
  "py_strip s = py_rstrip (py_lstrip s)"

text \<open>A literal of a pattern matches at the head of \<open>s\<close>.\<close>

definition starts_with :: "string \<Rightarrow> string \<Rightarrow> bool" where
  "starts_with p s = (take (length p) s = p)"

text \<open>
  \<^verbatim>\<open>$\<close> without \<^verbatim>\<open>re.MULTILINE\<close> matches at the end of the text and just before a
  newline that is the last character of the text.
\<close>

definition at_end :: "string \<Rightarrow> bool" where
  "at_end s = (s = [] \<or> s = [CHR 0x0A])"

definition cover_stop :: "string \<Rightarrow> bool" where
  "cover_stop s =
     (starts_with ''ATS Formatting Check:'' s \<or> starts_with ''Interview Questions:'' s \<or> at_end s)"

text \<open>
  The lazy group \<^verbatim>\<open>(.*?)\<close> under \<^verbatim>\<open>re.DOTALL\<close>: it takes one more character (any
  character) as long as none of the three alternatives that follow it matches.
\<close>

fun lazy_cover :: "string \<Rightarrow> string" where
  "lazy_cover [] = []"
| "lazy_cover (c # cs) = (if cover_stop (c # cs) then [] else c # lazy_cover cs)"

text \<open>
  One start position: the label, the greedy \<^verbatim>\<open>\s*\<close>, then the lazy group. The group
  always finds its end (at the latest at the end of the text), so the engine never gives
  back whitespace of \<^verbatim>\<open>\s*\<close>.
\<close>

definition match_cover_at :: "string \<Rightarrow> string option" where
  "match_cover_at s =
     (if starts_with ''Cover Letter:'' s
      then Some (lazy_cover (dropWhile is_space (drop (length ''Cover Letter:'') s)))
      else None)"

fun re_search_cover :: "string \<Rightarrow> string option" where
  "re_search_cover [] = match_cover_at []"
| "re_search_cover (c # cs) =
     (case match_cover_at (c # cs) of Some g \<Rightarrow> Some g | None \<Rightarrow> re_search_cover cs)"

definition extract_cover_letter :: "string \<Rightarrow> string option" where
  "extract_cover_letter analysis =
     (case re_search_cover analysis of
        Some g \<Rightarrow> Some (py_strip g)
      | None \<Rightarrow> None)"

text \<open>
  The specification's wording of the same extraction, for comparison: the index of the
  first occurrence of a literal, the content after the first label up to the nearest
  following marker (or to the end of the text), trimmed.
\<close>

fun first_index_of :: "string \<Rightarrow> string \<Rightarrow> nat option" where
  "first_index_of p [] = (if starts_with p [] then Some 0 else None)"
| "first_index_of p (c # cs) =
     (if starts_with p (c # cs) then Some 0
      else (case first_index_of p cs of Some i \<Rightarrow> Some (Suc i) | None \<Rightarrow> None))"

definition spec_section_end :: "string \<Rightarrow> nat" where
  "spec_section_end rest =
     (case (first_index_of ''ATS Formatting Check:'' rest,
            first_index_of ''Interview Questions:'' rest) of
        (None, None) \<Rightarrow> length rest
      | (Some a, None) \<Rightarrow> a
      | (None, Some b) \<Rightarrow> b
      | (Some a, Some b) \<Rightarrow> min a b)"

definition spec_extract_cover_letter :: "string \<Rightarrow> string option" where
  "spec_extract_cover_letter text =
     (case first_index_of ''Cover Letter:'' text of
        None \<Rightarrow> None
      | Some i \<Rightarrow>
          (let rest = drop (i + length ''Cover Letter:'') text
           in Some (py_strip (take (spec_section_end rest) rest))))"

text \<open>
  An auxiliary of the comparison: the content up to the nearest marker, by recursion.
\<close>

fun until_marker :: "string \<Rightarrow> string" where
  "until_marker [] = []"
| "until_marker (c # cs) =
     (if starts_with ''ATS Formatting Check:'' (c # cs) \<or> starts_with ''Interview Questions:'' (c # cs)
      then [] else c # until_marker cs)"

subsection \<open>The skills block\<close>

text \<open>
  \<^verbatim>\<open>
  skills_match = re.search(r"Skills Match:\s*({.*?})", analysis)
  \<close>
  The pattern is compiled without \<^verbatim>\<open>re.DOTALL\<close>: the dot matches every character
  but the newline. \<open>lazy_brace\<close> is the lazy \<^verbatim>\<open>.*?\<close> followed by the closing brace: it
  stops at the first closing brace and fails when a newline comes before one.
\<close>

fun lazy_brace :: "string \<Rightarrow> string option" where
  "lazy_brace [] = None"
| "lazy_brace (c # cs) =
     (if c = CHR ''}'' then Some [c]
      else if c = CHR 0x0A then None
      else (case lazy_brace cs of Some g \<Rightarrow> Some (c # g) | None \<Rightarrow> None))"

text \<open>
  One start position: the label, the greedy \<^verbatim>\<open>\s*\<close>, the opening brace, the lazy
  body. Giving back whitespace cannot help (the opening brace is not whitespace), so a
  failure after the longest run of whitespace is a failure at this start.
\<close>

definition match_skills_at :: "string \<Rightarrow> string option" where
  "match_skills_at s =
     (if starts_with ''Skills Match:'' s then
        (case dropWhile is_space (drop (length ''Skills Match:'') s) of
           [] \<Rightarrow> None
         | c # cs \<Rightarrow>
             (if c = CHR ''{'' then
                (case lazy_brace cs of Some g \<Rightarrow> Some (c # g) | None \<Rightarrow> None)
              else None))
      else None)"

fun re_search_skills :: "string \<Rightarrow> string option" where
  "re_search_skills [] = match_skills_at []"
| "re_search_skills (c # cs) =
     (case match_skills_at (c # cs) of Some g \<Rightarrow> Some g | None \<Rightarrow> re_search_skills cs)"

subsection \<open>\<^verbatim>\<open>eval\<close> on the captured payload\<close>

text \<open>
  \<^verbatim>\<open>skills_dict = eval(skills_match.group(1))  # Safely convert string to dict\<close>

  \<^verbatim>\<open>eval\<close> is Python's expression evaluator. The embedding evaluates a fragment of
  Python's expressions and says so when a payload is outside of it (\<open>NotModelled\<close>):
  what the script does with such a payload is a parameter of the script's model. The
  fragment is a dict display \<^verbatim>\<open>{ key : value , ... }\<close> over printable ASCII, where a
  key is a string literal in single or double quotes without a backslash and without a
  dollar sign (which matplotlib reads as mathtext in a tick label), a value is a decimal
  integer literal or a sum \<^verbatim>\<open>n + m\<close> of two (no leading zero, at most 15 digits, so
  every value is exactly a double), and blanks may stand between the tokens. A string
  literal that is still open at the end of the payload is a \<^verbatim>\<open>SyntaxError\<close>. A dict is
  the list of its items in insertion order.
\<close>

datatype py_exception = SyntaxError | OtherException string

type_synonym py_dict = "(string \<times> nat) list"

datatype eval_result = Returned py_dict | Raised py_exception | NotModelled

text \<open>\<^verbatim>\<open>d[k] = v\<close>: a key that is present keeps its position.\<close>

fun dict_set :: "py_dict \<Rightarrow> string \<Rightarrow> nat \<Rightarrow> py_dict" where
  "dict_set [] k v = [(k, v)]"
| "dict_set ((k', v') # d) k v =
     (if k' = k then (k, v) # d else (k', v') # dict_set d k v)"

datatype eval_state =
    Start
  | ExpectKey py_dict bool
  | InKey py_dict char string
  | AfterKey py_dict string
  | ExpectValue py_dict string
  | InNumber py_dict string string
  | AfterNumber py_dict string nat
  | ExpectSecond py_dict string nat
  | InSecond py_dict string nat string
  | AfterSecond py_dict string nat
  | Closed py_dict
  | Outside

definition printable :: "char \<Rightarrow> bool" where
  "printable c = (32 \<le> (of_char c :: nat) \<and> (of_char c :: nat) \<le> 126)"

definition is_quote :: "char \<Rightarrow> bool" where
  "is_quote c = (c = CHR 0x27 \<or> c = CHR 0x22)"

definition literal_ok :: "string \<Rightarrow> bool" where
  "literal_ok ds = ((length ds = 1 \<or> hd ds \<noteq> CHR ''0'') \<and> length ds \<le> 15)"

text \<open>What follows the complete value \<open>v\<close> of key \<open>k\<close>.\<close>

definition end_value :: "py_dict \<Rightarrow> string \<Rightarrow> nat \<Rightarrow> char \<Rightarrow> eval_state" where
  "end_value d k v c =
     (if c = CHR '','' then ExpectKey (dict_set d k v) False
      else if c = CHR ''}'' then Closed (dict_set d k v)
      else Outside)"

text \<open>What follows the first literal \<open>v\<close> of the value of key \<open>k\<close>.\<close>

definition after_value :: "py_dict \<Rightarrow> string \<Rightarrow> nat \<Rightarrow> char \<Rightarrow> eval_state" where
  "after_value d k v c =
     (if c = CHR '' '' then AfterNumber d k v
      else if c = CHR ''+'' then ExpectSecond d k v
      else end_value d k v c)"

fun eval_step :: "eval_state \<Rightarrow> char \<Rightarrow> eval_state" where
  "eval_step Start c = (if c = CHR ''{'' then ExpectKey [] True else Outside)"
| "eval_step (ExpectKey d first) c =
     (if c = CHR '' '' then ExpectKey d first
      else if is_quote c then InKey d c []
      else if c = CHR ''}'' \<and> first then Closed d
      else Outside)"
| "eval_step (InKey d q acc) c =
     (if c = q then AfterKey d acc
      else if c = CHR 0x5C \<or> c = CHR ''$'' then Outside
      else InKey d q (acc @ [c]))"
| "eval_step (AfterKey d k) c =
     (if c = CHR '' '' then AfterKey d k
      else if c = CHR '':'' then ExpectValue d k
      else Outside)"
| "eval_step (ExpectValue d k) c =
     (if c = CHR '' '' then ExpectValue d k
      else if is_digit c then InNumber d k [c]
      else Outside)"
| "eval_step (InNumber d k ds) c =
     (if is_digit c then InNumber d k (ds @ [c])
      else if literal_ok ds then after_value d k (py_int ds) c
      else Outside)"
| "eval_step (AfterNumber d k v) c =
     (if c = CHR '' '' then AfterNumber d k v else after_value d k v c)"
| "eval_step (ExpectSecond d k v) c =
     (if c = CHR '' '' then ExpectSecond d k v
      else if is_digit c then InSecond d k v [c]
      else Outside)"
| "eval_step (InSecond d k v ds) c =
     (if is_digit c then InSecond d k v (ds @ [c])
      else if literal_ok ds then
        (if c = CHR '' '' then AfterSecond d k (v + py_int ds)
         else end_value d k (v + py_int ds) c)
      else Outside)"
| "eval_step (AfterSecond d k v) c =
     (if c = CHR '' '' then AfterSecond d k v else end_value d k v c)"
| "eval_step (Closed d) c = Outside"
| "eval_step Outside c = Outside"

definition eval_char :: "eval_state \<Rightarrow> char \<Rightarrow> eval_state" where
  "eval_char st c = (if printable c then eval_step st c else Outside)"

definition py_eval :: "string \<Rightarrow> eval_result" where
  "py_eval source =
     (case foldl eval_char Start source of
        Closed d \<Rightarrow> Returned d
      | InKey d q acc \<Rightarrow> Raised SyntaxError
      | _ \<Rightarrow> NotModelled)"

text \<open>Lines 277 to 280: the search, then \<^verbatim>\<open>eval\<close> on group 1.\<close>

definition skills_dict :: "string \<Rightarrow> eval_result option" where
  "skills_dict analysis =
     (case re_search_skills analysis of
        None \<Rightarrow> None
      | Some payload \<Rightarrow> Some (py_eval payload))"





subsection \<open>The charts\<close>

text \<open>
  A figure is the data the function hands to matplotlib (a library; its drawing is not
  modelled). The floating point quotients of the source are written as the exact
  rationals they round; no property below depends on their values.
  \<^verbatim>\<open>
  def create_radar_chart(skills_data, job_title="Job Skills"):
      num_vars = len(skills_data)
      if num_vars == 0:
          return None  # Return None if there are no skills
      angles = [n / float(num_vars) * 2 * 3.14159 for n in range(num_vars)]
      angles += angles[:1]  # Close the circle
      ...
      values = list(skills_data.values())
      values += values[:1]  # Close the circle
      ax.plot(angles, values, ...)
      ax.set_xticks(angles[:-1])
      ax.set_xticklabels(list(skills_data.keys()), color="#333333")
      ax.set_title(f"{job_title} - Skill Proficiency", ...)
      return fig
  \<close>
\<close>

record radar_chart =
  plot_angles :: "rat list"
  plot_values :: "nat list"
  xticks :: "rat list"
  xticklabels :: "string list"
  radar_title :: string

definition create_radar_chart :: "py_dict \<Rightarrow> string \<Rightarrow> radar_chart option" where
  "create_radar_chart skills_data job_title =
     (let num_vars = length skills_data in
      if num_vars = 0 then None
      else
        (let angles0 = map (\<lambda>n. of_nat n / of_nat num_vars * 2 * (314159 / 100000)) [0..<num_vars];
             angles = angles0 @ take 1 angles0;
             values0 = map snd skills_data;
             values = values0 @ take 1 values0
         in Some \<lparr>plot_angles = angles, plot_values = values, xticks = butlast angles,
                   xticklabels = map fst skills_data,
                   radar_title = job_title @ '' - Skill Proficiency''\<rparr>))"

text \<open>
  \<^verbatim>\<open>
  def create_bar_chart(match_score, title="Resume Match Score"):
      fig, ax = plt.subplots(figsize=(6, 2.5))
      ax.barh([title], [match_score], color="#880E4F")
      ax.set_xlim(0, 100)
      ...
      for i, v in enumerate([match_score]):
          ax.text(v + 3, i, str(v) + "%", ...)
      return fig
  \<close>
\<close>

record bar_chart =
  bar_labels :: "string list"
  bar_widths :: "nat list"
  bar_texts :: "(nat \<times> nat \<times> string) list"


subsection \<open>The PDF generators\<close>

text \<open>
  The class \<^verbatim>\<open>FPDF\<close> is a library: its constructor and the four methods the program
  calls are the fields of a record, each returning the document or the exception it
  raised. \<^verbatim>\<open>output(dest='S')\<close> returns the document as a string.
\<close>

record 'pdf fpdf_lib =
  FPDF :: "py_exception + 'pdf"
  add_page :: "'pdf \<Rightarrow> py_exception + 'pdf"
  set_font :: "string \<Rightarrow> nat \<Rightarrow> 'pdf \<Rightarrow> py_exception + 'pdf"
  multi_cell :: "nat \<Rightarrow> nat \<Rightarrow> string \<Rightarrow> 'pdf \<Rightarrow> py_exception + 'pdf"
  output_str :: "string \<Rightarrow> 'pdf \<Rightarrow> py_exception + string"

text \<open>\<^verbatim>\<open>s.split("\n")\<close>: at least one line, the empty text gives one empty line.\<close>

fun split_newline :: "string \<Rightarrow> string list" where
  "split_newline [] = [[]]"
| "split_newline (c # cs) =
     (if c = CHR 0x0A then [] # split_newline cs
      else (case split_newline cs of
              [] \<Rightarrow> [[c]]
            | l # ls \<Rightarrow> (c # l) # ls))"

text \<open>\<^verbatim>\<open>s.encode('latin-1')\<close>: every character of the text model is in the codec's range.\<close>

type_synonym bytes = "nat list"

definition encode_latin1 :: "string \<Rightarrow> bytes" where
  "encode_latin1 s = map of_char s"

text \<open>
  The Streamlit calls of the script, as events. \<open>PyplotOther\<close> is \<^verbatim>\<open>st.pyplot\<close> with a
  radar figure made from a value that is outside the modelled fragment of \<^verbatim>\<open>eval\<close>.
\<close>

datatype ui_event =
    Markdown string
  | Progress rat
  | PyplotBar bar_chart
  | PyplotRadar radar_chart
  | PyplotOther
  | Warning string
  | Info string
  | ErrorMsg string
  | ErrorExc string py_exception
  | DownloadButton string bytes

text \<open>
  \<^verbatim>\<open>for line in lines: pdf.multi_cell(0, 10, line)\<close>, stopping at the first exception.
\<close>

fun multi_cell_lines :: "'pdf fpdf_lib \<Rightarrow> string list \<Rightarrow> 'pdf \<Rightarrow> py_exception + 'pdf" where
  "multi_cell_lines lib [] pdf = Inr pdf"
| "multi_cell_lines lib (line # lines) pdf =
     (case multi_cell lib 0 10 line pdf of
        Inl e \<Rightarrow> Inl e
      | Inr pdf' \<Rightarrow> multi_cell_lines lib lines pdf')"

text \<open>
  \<^verbatim>\<open>
  def generate_pdf_report(content):
      try:
          pdf = FPDF()
          pdf.add_page()
          pdf.set_font("Arial", size=12)
          for line in content.split("\n"):
              pdf.multi_cell(0, 10, line)
          output = pdf.output(dest='S').encode('latin-1')
          return output
      except Exception as e:
          st.error(f"Error generating PDF report: {e}")
          return None
  \<close>
  The result is the returned value and the events of the call.
\<close>

definition generate_pdf_report :: "'pdf fpdf_lib \<Rightarrow> string \<Rightarrow> bytes option \<times> ui_event list" where
  "generate_pdf_report lib content =
     (case
        (case FPDF lib of Inl e \<Rightarrow> Inl e | Inr pdf0 \<Rightarrow>
         (case add_page lib pdf0 of Inl e \<Rightarrow> Inl e | Inr pdf1 \<Rightarrow>
          (case set_font lib ''Arial'' 12 pdf1 of Inl e \<Rightarrow> Inl e | Inr pdf2 \<Rightarrow>
           (case multi_cell_lines lib (split_newline content) pdf2 of Inl e \<Rightarrow> Inl e | Inr pdf3 \<Rightarrow>
            (case output_str lib ''S'' pdf3 of Inl e \<Rightarrow> Inl e | Inr s \<Rightarrow>
               Inr (encode_latin1 s))))))
      of
        Inl e \<Rightarrow> (None, [ErrorExc ''Error generating PDF report: '' e])
      | Inr out \<Rightarrow> (Some out, []))"

text \<open>
  \<^verbatim>\<open>
  def generate_cover_letter_pdf(cover_letter_text):
      try:
          pdf = FPDF()
          pdf.add_page()
          pdf.set_font("Arial", size=12)
          for line in cover_letter_text.split("\n"):
              pdf.multi_cell(0, 10, line)
          output = pdf.output(dest='S').encode('latin-1')
          return output
      except Exception as e:
          st.error(f"Error generating cover letter PDF: {e}")
          return None
  \<close>
\<close>

definition generate_cover_letter_pdf :: "'pdf fpdf_lib \<Rightarrow> string \<Rightarrow> bytes option \<times> ui_event list" where
  "generate_cover_letter_pdf lib cover_letter_text =
     (case
        (case FPDF lib of Inl e \<Rightarrow> Inl e | Inr pdf0 \<Rightarrow>
         (case add_page lib pdf0 of Inl e \<Rightarrow> Inl e | Inr pdf1 \<Rightarrow>
          (case set_font lib ''Arial'' 12 pdf1 of Inl e \<Rightarrow> Inl e | Inr pdf2 \<Rightarrow>
           (case multi_cell_lines lib (split_newline cover_letter_text) pdf2 of Inl e \<Rightarrow> Inl e | Inr pdf3 \<Rightarrow>
            (case output_str lib ''S'' pdf3 of Inl e \<Rightarrow> Inl e | Inr s \<Rightarrow>
               Inr (encode_latin1 s))))))
      of
        Inl e \<Rightarrow> (None, [ErrorExc ''Error generating cover letter PDF: '' e])
      | Inr out \<Rightarrow> (Some out, []))"

subsection \<open>The script after a successful analysis\<close>

text \<open>
  Lines 258 to 318, in four stages. A \<^verbatim>\<open>bytes\<close> object and a \<^verbatim>\<open>str\<close> are true when
  they are not empty; a figure is always true.
\<close>


text \<open>
  Lines 277 to 287: the radar chart. For a payload inside the modelled fragment of
  \<^verbatim>\<open>eval\<close> the stage is computed. For every other payload the value of \<^verbatim>\<open>eval\<close> is
  not modelled, and what the \<^verbatim>\<open>try\<close> block does with it is the parameter \<open>outside\<close>
  of the script: it shows a figure (whose data is not modelled), it shows nothing
  (\<^verbatim>\<open>create_radar_chart\<close> returned \<^verbatim>\<open>None\<close>), or \<^verbatim>\<open>eval\<close>, \<^verbatim>\<open>create_radar_chart\<close>
  or matplotlib raised an exception that \<^verbatim>\<open>except Exception\<close> catches. In each case
  the script goes on after the block. (An exception that is no \<^verbatim>\<open>Exception\<close>, such as
  \<^verbatim>\<open>SystemExit\<close>, and a call that does not return are not modelled.)
\<close>

datatype outside_outcome = DrawsFigure | DrawsNothing | Raises py_exception

definition skills_stage :: "(string \<Rightarrow> outside_outcome) \<Rightarrow> string \<Rightarrow> ui_event list" where
  "skills_stage outside analysis =
     (case re_search_skills analysis of
        None \<Rightarrow> [Info ''No specific skills match found to visualize.'']
      | Some payload \<Rightarrow>
          (case py_eval payload of
             Returned d \<Rightarrow>
               (case create_radar_chart d ''Skills Overview'' of
                  Some radar_chart \<Rightarrow> [PyplotRadar radar_chart]
                | None \<Rightarrow> [])
           | Raised e \<Rightarrow> [ErrorExc ''Error processing skills data: '' e]
           | NotModelled \<Rightarrow>
               (case outside payload of
                  DrawsFigure \<Rightarrow> [PyplotOther]
                | DrawsNothing \<Rightarrow> []
                | Raises e \<Rightarrow> [ErrorExc ''Error processing skills data: '' e])))"





text \<open>
  An instance of the library for the examples: the document is the list of the lines
  written so far, and its output is their concatenation.
\<close>

definition line_lib :: "string list fpdf_lib" where
  "line_lib =
     \<lparr>FPDF = Inr [], add_page = (\<lambda>pdf. Inr pdf), set_font = (\<lambda>family size pdf. Inr pdf),
      multi_cell = (\<lambda>w h line pdf. Inr (pdf @ [line])),
      output_str = (\<lambda>dest pdf. Inr (concat pdf))\<rparr>"

section \<open>Properties of the match percentage\<close>

lemma percent_not_digit: "\<not> is_digit CHR ''%''"
  by (simp add: is_digit_def)

lemma try_digits_pct_at: "try_digits k s = Some g \<Longrightarrow> 1 \<le> k \<Longrightarrow> k \<le> 3 \<Longrightarrow> pct_at s 0 k \<and> g = take k s"
  by (auto simp: try_digits_def pct_at_def split: if_splits)

lemma pct_at_try_digits: "pct_at s 0 k \<Longrightarrow> try_digits k s = Some (take k s)"
  by (auto simp: try_digits_def pct_at_def)

lemma pct_at_unique:
  assumes "pct_at s i k" "pct_at s i k'" shows "k = k'"
proof (rule ccontr)
  assume ne: "k \<noteq> k'"
  have aux: "\<And>a b. pct_at s i a \<Longrightarrow> pct_at s i b \<Longrightarrow> a < b \<Longrightarrow> False"
  proof -
    fix a b assume A: "pct_at s i a" and B: "pct_at s i b" and lt: "a < b"
    from B have "list_all is_digit (take b (drop i s))" and "i + b < length s"
      by (simp_all add: pct_at_def)
    then have "is_digit (take b (drop i s) ! a)" using lt
      by (simp add: list_all_length)
    then have "is_digit (s ! (i + a))" using lt \<open>i + b < length s\<close> by simp
    moreover from A have "s ! (i + a) = CHR ''%''" by (simp add: pct_at_def)
    ultimately show False by (simp add: percent_not_digit)
  qed
  from ne have "k < k' \<or> k' < k" by arith
  then show False using aux assms by blast
qed

lemma match_pct_at_Some:
  "match_pct_at s = Some g \<Longrightarrow> \<exists>k. pct_at s 0 k \<and> g = take k s"
  unfolding match_pct_at_def
  by (auto split: option.splits dest!: try_digits_pct_at)

lemma match_pct_at_None:
  assumes "match_pct_at s = None" shows "\<not> pct_at s 0 k"
proof
  assume P: "pct_at s 0 k"
  then have "k = 1 \<or> k = 2 \<or> k = 3" by (auto simp: pct_at_def)
  moreover from assms have "try_digits 1 s = None" "try_digits 2 s = None" "try_digits 3 s = None"
    by (auto simp: match_pct_at_def split: option.splits)
  ultimately show False using pct_at_try_digits [OF P] by auto
qed

lemma pct_at_Cons: "pct_at (c # cs) (Suc i) k = pct_at cs i k"
  by (simp add: pct_at_def)

lemma re_search_pct_None:
  "(\<And>i k. \<not> pct_at s i k) \<Longrightarrow> re_search_pct s = None"
proof (induction s)
  case Nil
  show ?case
    by (simp add: match_pct_at_def try_digits_def)
next
  case (Cons c cs)
  have "match_pct_at (c # cs) = None"
  proof (cases "match_pct_at (c # cs)")
    case (Some g)
    then show ?thesis using match_pct_at_Some Cons.prems by blast
  qed simp
  moreover have "re_search_pct cs = None"
    using Cons.IH Cons.prems pct_at_Cons by blast
  ultimately show ?case by simp
qed

lemma re_search_pct_leftmost:
  "pct_at s i k \<Longrightarrow>
   \<exists>j m. pct_at s j m \<and> (\<forall>j' m'. pct_at s j' m' \<longrightarrow> j \<le> j') \<and>
         re_search_pct s = Some (take m (drop j s))"
proof (induction s arbitrary: i)
  case Nil
  then show ?case by (simp add: pct_at_def)
next
  case (Cons c cs)
  show ?case
  proof (cases "match_pct_at (c # cs)")
    case (Some g)
    then obtain m where m: "pct_at (c # cs) 0 m" "g = take m (c # cs)"
      using match_pct_at_Some by blast
    have "re_search_pct (c # cs) = Some (take m (drop 0 (c # cs)))"
      using Some m by simp
    with m(1) show ?thesis by (intro exI [of _ 0] exI [of _ m]) simp
  next
    case None
    then have no0: "\<And>k'. \<not> pct_at (c # cs) 0 k'" by (rule match_pct_at_None)
    with Cons.prems obtain i' where i': "i = Suc i'" by (cases i) auto
    with Cons.prems have "pct_at cs i' k" by (simp add: pct_at_Cons)
    from Cons.IH [OF this] obtain j m where jm: "pct_at cs j m"
      "\<forall>j' m'. pct_at cs j' m' \<longrightarrow> j \<le> j'" "re_search_pct cs = Some (take m (drop j cs))"
      by blast
    have least: "\<forall>j' m'. pct_at (c # cs) j' m' \<longrightarrow> Suc j \<le> j'"
    proof (intro allI impI)
      fix j' m' assume P: "pct_at (c # cs) j' m'"
      with no0 obtain j'' where "j' = Suc j''" by (cases j') auto
      with P jm(2) show "Suc j \<le> j'" by (auto simp: pct_at_Cons)
    qed
    have "re_search_pct (c # cs) = Some (take m (drop (Suc j) (c # cs)))"
      using None jm(3) by simp
    with jm(1) least show ?thesis
      by (intro exI [of _ "Suc j"] exI [of _ m]) (simp add: pct_at_Cons)
  qed
qed


lemma digit_value_digit_char: "d < 10 \<Longrightarrow> digit_value (digit_char d) = d"
  by (simp add: digit_value_def digit_char_def)

lemma is_digit_digit_char: "d < 10 \<Longrightarrow> is_digit (digit_char d)"
  by (simp add: is_digit_def digit_char_def)

lemma py_int_snoc: "py_int (ds @ [c]) = 10 * py_int ds + digit_value c"
  by (simp add: py_int_def)

lemma py_str_digits: "list_all is_digit (py_str n)"
proof (induction n rule: py_str.induct)
  case (1 n)
  show ?case
  proof (cases "n < 10")
    case True
    then show ?thesis by (subst py_str.simps) (simp add: is_digit_digit_char)
  next
    case False
    with 1 show ?thesis by (subst py_str.simps) (simp add: is_digit_digit_char)
  qed
qed

lemma py_int_py_str: "py_int (py_str n) = n"
proof (induction n rule: py_str.induct)
  case (1 n)
  show ?case
  proof (cases "n < 10")
    case True
    then show ?thesis
      by (subst py_str.simps) (simp add: py_int_def digit_value_digit_char)
  next
    case False
    with 1 show ?thesis
      by (subst py_str.simps) (simp add: py_int_snoc digit_value_digit_char)
  qed
qed

lemma length_py_str: "n < 1000 \<Longrightarrow> 1 \<le> length (py_str n) \<and> length (py_str n) \<le> 3"
proof -
  assume n: "n < 1000"
  have one: "\<And>m. m < 10 \<Longrightarrow> length (py_str m) = 1"
    by (subst py_str.simps) simp
  have two: "\<And>m. 10 \<le> m \<Longrightarrow> m < 100 \<Longrightarrow> length (py_str m) = 2"
    by (subst py_str.simps) (simp add: one)
  have three: "\<And>m. 100 \<le> m \<Longrightarrow> m < 1000 \<Longrightarrow> length (py_str m) = 3"
    by (subst py_str.simps) (simp add: two)
  from n consider "n < 10" | "10 \<le> n" "n < 100" | "100 \<le> n" "n < 1000" by linarith
  then show ?thesis by cases (simp_all add: one two three)
qed

lemma pct_at_py_str:
  "n < 1000 \<Longrightarrow> pct_at (py_str n @ CHR ''%'' # s) 0 (length (py_str n))"
  using length_py_str [of n] py_str_digits [of n]
  by (simp add: pct_at_def nth_append)

lemma re_search_pct_py_str:
  assumes "n < 1000"
  shows "re_search_pct (py_str n @ CHR ''%'' # s) = Some (py_str n)"
proof -
  let ?t = "py_str n @ CHR ''%'' # s"
  have P: "pct_at ?t 0 (length (py_str n))" using assms by (rule pct_at_py_str)
  have "match_pct_at ?t \<noteq> None" using match_pct_at_None P by blast
  then obtain g where g: "match_pct_at ?t = Some g" by auto
  then obtain k where k: "pct_at ?t 0 k" "g = take k ?t" using match_pct_at_Some by blast
  with P have "k = length (py_str n)" using pct_at_unique by blast
  with k have "g = py_str n" by simp
  with g show ?thesis by (cases ?t) auto
qed

lemma match_pct_at_prefix_None:
  assumes nomatch: "\<And>i k. \<not> pct_at p i k" and p: "p \<noteq> []" and nd: "\<not> is_digit (last p)"
  shows "match_pct_at (p @ r) = None"
proof (cases "match_pct_at (p @ r)")
  case (Some g)
  then obtain k where k: "pct_at (p @ r) 0 k" using match_pct_at_Some by blast
  show ?thesis
  proof (cases "k < length p")
    case True
    with k have "pct_at p 0 k" by (simp add: pct_at_def nth_append)
    with nomatch show ?thesis by blast
  next
    case False
    from k have "list_all is_digit (take k (p @ r))" by (simp add: pct_at_def)
    with False have "list_all is_digit p" by simp
    with p have "is_digit (last p)" by (simp add: list_all_iff)
    with nd show ?thesis by simp
  qed
qed simp

lemma re_search_pct_skip_prefix:
  "(\<And>i k. \<not> pct_at p i k) \<Longrightarrow> p = [] \<or> \<not> is_digit (last p) \<Longrightarrow> r \<noteq> [] \<Longrightarrow>
   re_search_pct (p @ r) = re_search_pct r"
proof (induction p)
  case Nil
  then show ?case by simp
next
  case (Cons c p')
  have nd: "\<not> is_digit (last (c # p'))" using Cons.prems(2) by simp
  have "match_pct_at ((c # p') @ r) = None"
    using Cons.prems(1) nd by (intro match_pct_at_prefix_None) simp_all
  moreover have "re_search_pct (p' @ r) = re_search_pct r"
  proof (rule Cons.IH)
    show "\<And>i k. \<not> pct_at p' i k" using Cons.prems(1) pct_at_Cons by blast
    show "p' = [] \<or> \<not> is_digit (last p')" using nd by (cases p') auto
    show "r \<noteq> []" by fact
  qed
  ultimately show ?case by simp
qed

text \<open>
  Claim C1. When the text holds one to three decimal digits immediately followed by a
  percent sign, \<open>extract_match_percentage\<close> returns the digits of the leftmost such
  occurrence (no occurrence starts further left), read as an integer and clamped to at
  most 100.
\<close>
theorem extract_match_percentage_leftmost:
  assumes "pct_at text i k"
  shows "\<exists>j m. pct_at text j m \<and> (\<forall>j' m'. pct_at text j' m' \<longrightarrow> j \<le> j') \<and>
           extract_match_percentage text = Some (min (py_int (take m (drop j text))) 100)"
proof -
  from assms have ne: "text \<noteq> []" by (auto simp: pct_at_def)
  from re_search_pct_leftmost [OF assms] obtain j m where
    "pct_at text j m" "\<forall>j' m'. pct_at text j' m' \<longrightarrow> j \<le> j'"
    "re_search_pct text = Some (take m (drop j text))" by blast
  with ne show ?thesis
    by (intro exI [of _ j] exI [of _ m]) (simp add: extract_match_percentage_def)
qed

theorem extract_match_percentage_leftmost_witness:
  "pct_at ''Match: 75% or 80%'' 7 2 \<and>
   (\<exists>j m. pct_at ''Match: 75% or 80%'' j m \<and>
      (\<forall>j' m'. pct_at ''Match: 75% or 80%'' j' m' \<longrightarrow> j \<le> j') \<and>
      extract_match_percentage ''Match: 75% or 80%'' =
        Some (min (py_int (take m (drop j ''Match: 75% or 80%''))) 100))"
proof -
  have h: "pct_at ''Match: 75% or 80%'' 7 2"
    by (simp add: pct_at_def is_digit_def)
  from extract_match_percentage_leftmost [OF h] h show ?thesis by blast
qed

text \<open>
  Claim C6. When no digit of the text is immediately followed by a percent sign, the
  result is \<open>None\<close>; the function is total, so nothing is raised.
\<close>
theorem extract_match_percentage_absent:
  assumes "\<not> (\<exists>i. Suc i < length text \<and> is_digit (text ! i) \<and> text ! Suc i = CHR ''%'')"
  shows "extract_match_percentage text = None"
proof -
  have "\<And>i k. \<not> pct_at text i k"
  proof
    fix i k assume P: "pct_at text i k"
    then obtain k' where k': "k = Suc k'" by (cases k) (auto simp: pct_at_def)
    from P have "is_digit (take k (drop i text) ! k')"
      unfolding pct_at_def list_all_length using k' by auto
    with P k' have "is_digit (text ! (i + k'))" by (simp add: pct_at_def)
    moreover from P k' have "Suc (i + k') < length text" "text ! Suc (i + k') = CHR ''%''"
      by (simp_all add: pct_at_def)
    ultimately show False using assms by blast
  qed
  then have "re_search_pct text = None" by (rule re_search_pct_None)
  then show ?thesis by (simp add: extract_match_percentage_def)
qed

theorem extract_match_percentage_absent_witness:
  "\<not> (\<exists>i. Suc i < length ''score: 5 %'' \<and> is_digit (''score: 5 %'' ! i) \<and>
          ''score: 5 %'' ! Suc i = CHR ''%'') \<and>
   extract_match_percentage ''score: 5 %'' = None"
proof -
  have h: "\<not> (\<exists>i. Suc i < length ''score: 5 %'' \<and> is_digit (''score: 5 %'' ! i) \<and>
          ''score: 5 %'' ! Suc i = CHR ''%'')"
  proof
    assume "\<exists>i. Suc i < length ''score: 5 %'' \<and> is_digit (''score: 5 %'' ! i) \<and>
          ''score: 5 %'' ! Suc i = CHR ''%''"
    then obtain i where i: "Suc i < length ''score: 5 %''" "''score: 5 %'' ! Suc i = CHR ''%''"
      "is_digit (''score: 5 %'' ! i)" by blast
    from i(1) have "i \<in> {0,1,2,3,4,5,6,7,8}" by auto
    with i(2,3) show False by (auto simp: is_digit_def)
  qed
  from extract_match_percentage_absent [OF h] h show ?thesis by blast
qed

text \<open>
  Claim C5 as stated fails: a percentage in the prefix wins, since the search takes the
  first match. With the prefix \<^verbatim>\<open>50% or \<close> and \<open>n = 75\<close> the result is 50.
\<close>
theorem extract_match_percentage_roundtrip_counterexample:
  "\<not> (\<forall>n \<le> 100. \<forall>p s. extract_match_percentage (p @ py_str n @ ''%'' @ s) = Some n)"
proof
  assume A: "\<forall>n \<le> 100. \<forall>p s. extract_match_percentage (p @ py_str n @ ''%'' @ s) = Some n"
  have "(75::nat) \<le> 100" by simp
  with A have "\<forall>p s. extract_match_percentage (p @ py_str 75 @ ''%'' @ s) = Some 75"
    by blast
  then have "extract_match_percentage (''50% or '' @ py_str 75 @ ''%'' @ []) = Some 75"
    by blast
  moreover have "py_str 75 = ''75''" by code_simp
  ultimately show False
    by (simp add: extract_match_percentage_def match_pct_at_def try_digits_def is_digit_def py_int_def digit_value_def)
qed

text \<open>
  Claim C5, amended. For \<open>n\<close> in 0..100, a prefix that holds no match of its own and
  does not end in a digit, and any suffix, the text
  \<open>prefix @ str n @ % @ suffix\<close> gives exactly \<open>n\<close>.
\<close>
theorem extract_match_percentage_roundtrip:
  assumes "n \<le> 100" and "\<forall>i k. \<not> pct_at p i k" and "p = [] \<or> \<not> is_digit (last p)"
  shows "extract_match_percentage (p @ py_str n @ ''%'' @ s) = Some n"
proof -
  from assms(1) have n: "n < 1000" by simp
  have "re_search_pct (p @ (py_str n @ CHR ''%'' # s)) = re_search_pct (py_str n @ CHR ''%'' # s)"
    using assms(2,3) by (intro re_search_pct_skip_prefix) simp_all
  also have "\<dots> = Some (py_str n)" using n by (rule re_search_pct_py_str)
  finally show ?thesis using assms(1)
    by (simp add: extract_match_percentage_def py_int_py_str)
qed

lemma pct_at_percent: "pct_at p i k \<Longrightarrow> CHR ''%'' \<in> set p"
  using nth_mem [of "i + k" p] by (auto simp: pct_at_def)

theorem extract_match_percentage_roundtrip_witness:
  "(75::nat) \<le> 100 \<and> extract_match_percentage (''Match: '' @ py_str 75 @ ''%'' @ '' overall'') = Some 75"
proof -
  have a: "(75::nat) \<le> 100" by simp
  have b: "\<forall>i k. \<not> pct_at ''Match: '' i k"
    using pct_at_percent [of "''Match: ''"] by auto
  have c: "''Match: '' = [] \<or> \<not> is_digit (last ''Match: '')"
    by (simp add: is_digit_def)
  from extract_match_percentage_roundtrip [OF a b c] a show ?thesis by blast
qed

section \<open>Properties of the cover letter extraction\<close>

lemma py_rstrip_Cons:
  "py_rstrip (c # a) =
     (if py_rstrip a = [] then (if is_space c then [] else [c]) else c # py_rstrip a)"
  by (auto simp: py_rstrip_def dropWhile_append)

lemma py_rstrip_Nil [simp]: "py_rstrip [] = []"
  by (simp add: py_rstrip_def)

lemma py_rstrip_lstrip: "py_rstrip (py_lstrip a) = py_lstrip (py_rstrip a)"
proof (induction a)
  case Nil
  show ?case by (simp add: py_lstrip_def)
next
  case (Cons c a)
  then show ?case
    by (auto simp: py_rstrip_Cons py_lstrip_def)
qed

lemma py_strip_cong: "py_rstrip a = py_rstrip b \<Longrightarrow> py_strip a = py_strip b"
  by (simp add: py_strip_def py_rstrip_lstrip)

lemma newline_space: "is_space (CHR 0x0A)"
  by (simp add: is_space_def)

lemma rstrip_lazy_cover: "py_rstrip (lazy_cover s) = py_rstrip (until_marker s)"
proof (induction s)
  case Nil
  show ?case by simp
next
  case (Cons c cs)
  show ?case
  proof (cases "starts_with ''ATS Formatting Check:'' (c # cs) \<or> starts_with ''Interview Questions:'' (c # cs)")
    case True
    then show ?thesis by (auto simp: cover_stop_def)
  next
    case False
    show ?thesis
    proof (cases "at_end (c # cs)")
      case True
      then have "c = CHR 0x0A" "cs = []" by (simp_all add: at_end_def)
      then show ?thesis using False
        by (simp add: cover_stop_def at_end_def py_rstrip_Cons newline_space)
    next
      case ne: False
      with False have "\<not> cover_stop (c # cs)" by (simp add: cover_stop_def)
      with False Cons.IH show ?thesis by (simp add: py_rstrip_Cons)
    qed
  qed
qed

lemma starts_with_not_space:
  "is_space c \<Longrightarrow> \<not> starts_with ''ATS Formatting Check:'' (c # cs) \<and> \<not> starts_with ''Interview Questions:'' (c # cs)"
  by (auto simp: starts_with_def is_space_def)

lemma until_marker_lstrip: "until_marker (py_lstrip r) = py_lstrip (until_marker r)"
proof (induction r)
  case Nil
  show ?case by (simp add: py_lstrip_def)
next
  case (Cons c r)
  show ?case
  proof (cases "is_space c")
    case True
    with starts_with_not_space [OF True] Cons.IH show ?thesis
      by (simp add: py_lstrip_def)
  next
    case False
    then show ?thesis by (simp add: py_lstrip_def)
  qed
qed

lemma py_lstrip_idem: "py_lstrip (py_lstrip s) = py_lstrip s"
  unfolding py_lstrip_def by (induction s) auto

lemma until_marker_take: "until_marker s = take (spec_section_end s) s"
proof (induction s)
  case Nil
  show ?case by simp
next
  case (Cons c cs)
  then show ?case
    by (auto simp: spec_section_end_def split: option.splits)
qed

lemma strip_group:
  "py_strip (lazy_cover (dropWhile is_space r)) = py_strip (take (spec_section_end r) r)"
proof -
  have "py_strip (lazy_cover (py_lstrip r)) = py_strip (until_marker (py_lstrip r))"
    by (rule py_strip_cong) (rule rstrip_lazy_cover)
  also have "\<dots> = py_strip (until_marker r)"
    by (simp add: until_marker_lstrip py_strip_def py_lstrip_idem)
  finally show ?thesis by (simp add: until_marker_take py_lstrip_def)
qed

lemma re_search_cover_first:
  "re_search_cover s =
     (case first_index_of ''Cover Letter:'' s of
        None \<Rightarrow> None
      | Some i \<Rightarrow> Some (lazy_cover (dropWhile is_space (drop (i + length ''Cover Letter:'') s))))"
proof (induction s)
  case Nil
  show ?case by (simp add: match_cover_at_def starts_with_def)
next
  case (Cons c cs)
  show ?case
  proof (cases "starts_with ''Cover Letter:'' (c # cs)")
    case True
    then show ?thesis by (simp add: match_cover_at_def)
  next
    case False
    then have "match_cover_at (c # cs) = None" by (simp add: match_cover_at_def)
    with False Cons.IH show ?thesis by (simp split: option.splits)
  qed
qed

text \<open>
  Claim C4. The extraction of the program is the extraction the specification words:
  for a text with the label \<^verbatim>\<open>Cover Letter:\<close>, the whitespace-trimmed content
  between the first label and the nearest following \<^verbatim>\<open>ATS Formatting Check:\<close> or
  \<^verbatim>\<open>Interview Questions:\<close>, or up to the end of the text when neither follows; for a
  text without the label, \<open>None\<close>.
\<close>
theorem extract_cover_letter_spec:
  "extract_cover_letter text = spec_extract_cover_letter text"
  by (simp add: extract_cover_letter_def spec_extract_cover_letter_def re_search_cover_first
      strip_group Let_def split: option.splits)

theorem extract_cover_letter_spec_witness:
  "extract_cover_letter
     (''Match: 75%'' @ [CHR 0x0A] @ ''Cover Letter:'' @ [CHR 0x0A] @ ''Dear Hiring Manager...''
        @ [CHR 0x0A] @ ''ATS Formatting Check:'' @ [CHR 0x0A] @ ''Looks fine.'')
   = Some ''Dear Hiring Manager...''"
  by (subst extract_cover_letter_spec) code_simp

section \<open>Properties of the skills block\<close>

lemma lazy_brace_newline:
  "CHR ''}'' \<notin> set b \<Longrightarrow> lazy_brace (b @ CHR 0x0A # rest) = None"
  by (induction b) auto

lemma dropWhile_spaces_brace:
  "list_all is_space ws \<Longrightarrow> dropWhile is_space (ws @ CHR ''{'' # x) = CHR ''{'' # x"
  by (induction ws) (auto simp: is_space_def)

lemma starts_with_append: "starts_with p (p @ s)"
  by (simp add: starts_with_def)

lemma match_skills_at_newline:
  assumes "list_all is_space ws" and "CHR ''}'' \<notin> set b"
  shows "match_skills_at (''Skills Match:'' @ ws @ ''{'' @ b @ [CHR 0x0A] @ rest) = None"
proof -
  have "drop (length ''Skills Match:'') (''Skills Match:'' @ ws @ ''{'' @ b @ [CHR 0x0A] @ rest)
        = ws @ CHR ''{'' # (b @ CHR 0x0A # rest)"
    by simp
  then show ?thesis
    unfolding match_skills_at_def
    using dropWhile_spaces_brace [OF assms(1)] lazy_brace_newline [OF assms(2)]
    by (simp del: drop_append)
qed

lemma re_search_skills_None:
  "(\<And>j. match_skills_at (drop j s) = None) \<Longrightarrow> re_search_skills s = None"
proof (induction s)
  case Nil
  from Nil [of 0] show ?case by simp
next
  case (Cons c cs)
  from Cons.prems [of 0] have "match_skills_at (c # cs) = None" by simp
  moreover have "re_search_skills cs = None"
  proof (rule Cons.IH)
    fix j from Cons.prems [of "Suc j"] show "match_skills_at (drop j cs) = None" by simp
  qed
  ultimately show ?case by simp
qed

lemma match_skills_at_no_label:
  "\<not> starts_with ''Skills Match:'' s \<Longrightarrow> match_skills_at s = None"
  by (simp add: match_skills_at_def)

lemma first_index_of_None:
  "first_index_of p s = None \<Longrightarrow> \<not> starts_with p (drop j s)"
proof (induction s arbitrary: j)
  case Nil
  then show ?case by (simp split: if_splits)
next
  case (Cons c cs)
  show ?case
  proof (cases j)
    case 0
    with Cons.prems show ?thesis by (simp split: if_splits)
  next
    case (Suc j')
    from Cons.prems have "first_index_of p cs = None"
      by (simp split: if_splits option.splits)
    from Cons.IH [OF this] Suc show ?thesis by simp
  qed
qed

lemma first_index_of_Some:
  "first_index_of p s = Some i \<Longrightarrow> j < i \<Longrightarrow> \<not> starts_with p (drop j s)"
proof (induction s arbitrary: i j)
  case Nil
  then show ?case by (simp split: if_splits)
next
  case (Cons c cs)
  from Cons.prems have ns: "\<not> starts_with p (c # cs)"
    by (auto split: if_splits)
  with Cons.prems obtain i' where i': "first_index_of p cs = Some i'" "i = Suc i'"
    by (auto split: option.splits)
  show ?case
  proof (cases j)
    case 0
    with ns show ?thesis by simp
  next
    case (Suc j')
    with Cons.prems(2) i'(2) have "j' < i'" by simp
    from Cons.IH [OF i'(1) this] Suc show ?thesis by simp
  qed
qed

lemma re_search_skills_single:
  assumes blk: "match_skills_at blk = None"
    and before: "first_index_of ''Skills Match:'' (pre @ blk) = Some (length pre)"
    and after: "first_index_of ''Skills Match:'' (drop 1 blk) = None"
  shows "re_search_skills (pre @ blk) = None"
proof (rule re_search_skills_None)
  fix j
  consider "j < length pre" | "j = length pre" | "length pre < j" by linarith
  then show "match_skills_at (drop j (pre @ blk)) = None"
  proof cases
    case 1
    from first_index_of_Some [OF before 1] show ?thesis by (rule match_skills_at_no_label)
  next
    case 2
    then show ?thesis using blk by simp
  next
    case 3
    define m where "m = j - length pre - 1"
    with 3 have m: "j = length pre + Suc m" by simp
    have d: "drop j (pre @ blk) = drop m (drop 1 blk)" by (simp add: m)
    have "\<not> starts_with ''Skills Match:'' (drop m (drop 1 blk))"
      by (rule first_index_of_None [OF after])
    then have "\<not> starts_with ''Skills Match:'' (drop j (pre @ blk))"
      unfolding d .
    then show ?thesis by (rule match_skills_at_no_label)
  qed
qed

text \<open>
  Claim C10. The skills pattern has no dot-matches-newline flag. A block whose payload
  has a line break before its first closing brace does not match, whatever the payload
  is; when the label occurs nowhere else in the text, the search finds nothing, no dict
  is produced, \<^verbatim>\<open>eval\<close> is not called and the script only shows the information
  message. The witness splits a valid mapping literal over two lines.
\<close>
theorem skills_block_newline_absent:
  assumes ws: "list_all is_space ws" and b: "CHR ''}'' \<notin> set b"
    and before: "first_index_of ''Skills Match:''
                   (pre @ ''Skills Match:'' @ ws @ ''{'' @ b @ [CHR 0x0A] @ rest) = Some (length pre)"
    and after: "first_index_of ''Skills Match:''
                   (drop 1 (''Skills Match:'' @ ws @ ''{'' @ b @ [CHR 0x0A] @ rest)) = None"
  shows "match_skills_at (''Skills Match:'' @ ws @ ''{'' @ b @ [CHR 0x0A] @ rest) = None \<and>
         skills_dict (pre @ ''Skills Match:'' @ ws @ ''{'' @ b @ [CHR 0x0A] @ rest) = None \<and>
         skills_stage outside (pre @ ''Skills Match:'' @ ws @ ''{'' @ b @ [CHR 0x0A] @ rest)
            = [Info ''No specific skills match found to visualize.'']"
proof -
  define blk where "blk = ''Skills Match:'' @ ws @ ''{'' @ b @ [CHR 0x0A] @ rest"
  have m: "match_skills_at blk = None"
    unfolding blk_def using ws b by (rule match_skills_at_newline)
  have rs: "re_search_skills (pre @ blk) = None"
    using m before after unfolding blk_def by (rule re_search_skills_single)
  then have sd: "skills_dict (pre @ blk) = None" by (simp add: skills_dict_def)
  from rs have "skills_stage outside (pre @ blk) = [Info ''No specific skills match found to visualize.'']"
    by (simp add: skills_stage_def)
  with m sd show ?thesis unfolding blk_def by blast
qed

theorem skills_block_newline_absent_witness:
  "skills_dict (''Match: 75% '' @ ''Skills Match:'' @ '' '' @ ''{'' @ '''Python': 80,'' @ [CHR 0x0A]
                 @ '' 'SQL': 60} end'') = None \<and>
   py_eval ''{'Python': 80, 'SQL': 60}'' = Returned [(''Python'', 80), (''SQL'', 60)]"
proof -
  have ws: "list_all is_space '' ''" by (simp add: is_space_def)
  have b: "CHR ''}'' \<notin> set '''Python': 80,''" by simp
  have before: "first_index_of ''Skills Match:''
       (''Match: 75% '' @ ''Skills Match:'' @ '' '' @ ''{'' @ '''Python': 80,'' @ [CHR 0x0A] @ '' 'SQL': 60} end'')
       = Some (length ''Match: 75% '')"
    by code_simp
  have after: "first_index_of ''Skills Match:''
       (drop 1 (''Skills Match:'' @ '' '' @ ''{'' @ '''Python': 80,'' @ [CHR 0x0A] @ '' 'SQL': 60} end'')) = None"
    by code_simp
  have ev: "py_eval ''{'Python': 80, 'SQL': 60}'' = Returned [(''Python'', 80), (''SQL'', 60)]"
    by code_simp
  from skills_block_newline_absent [OF ws b before after] ev show ?thesis by blast
qed

section \<open>Properties of the radar chart and of the PDF generators\<close>

text \<open>
  Claim C8. \<open>create_radar_chart\<close> returns \<open>None\<close> for the empty dict; for every
  non-empty dict it returns a figure with one axis (tick and label) per skill, so never
  a figure with zero axes, and the plotted polygon is closed (one value more than axes).
\<close>
theorem create_radar_chart_axes:
  "create_radar_chart [] job_title = None \<and>
   (skills_data \<noteq> [] \<longrightarrow>
      (\<exists>fig. create_radar_chart skills_data job_title = Some fig \<and>
         length (xticks fig) = length skills_data \<and> 0 < length (xticks fig) \<and>
         xticklabels fig = map fst skills_data \<and>
         length (plot_values fig) = Suc (length skills_data)))"
proof (intro conjI impI)
  show "create_radar_chart [] job_title = None"
    by (simp add: create_radar_chart_def)
next
  assume ne: "skills_data \<noteq> []"
  then obtain kv kvs where kv: "skills_data = kv # kvs" by (cases skills_data) auto
  show "\<exists>fig. create_radar_chart skills_data job_title = Some fig \<and>
         length (xticks fig) = length skills_data \<and> 0 < length (xticks fig) \<and>
         xticklabels fig = map fst skills_data \<and>
         length (plot_values fig) = Suc (length skills_data)"
    unfolding kv by (simp add: create_radar_chart_def Let_def upt_conv_Cons del: upt_Suc)
qed

theorem create_radar_chart_axes_witness:
  "create_radar_chart [] ''Skills Overview'' = None \<and>
   (\<exists>fig. create_radar_chart [(''Python'', 80), (''SQL'', 60)] ''Skills Overview'' = Some fig \<and>
      length (xticks fig) = 2 \<and> xticklabels fig = [''Python'', ''SQL''])"
  using create_radar_chart_axes [of "''Skills Overview''" "[(''Python'', 80), (''SQL'', 60)]"]
  by auto

text \<open>
  Claim C9. The two generators make the same calls of the library in the same order:
  for every library and every text they return the same bytes (or both \<open>None\<close>).
  Each result is a function of the library and the text alone; nothing is shared.
\<close>
theorem pdf_generators_equal:
  "fst (generate_pdf_report lib content) = fst (generate_cover_letter_pdf lib content)"
  by (simp add: generate_pdf_report_def generate_cover_letter_pdf_def split: sum.splits)

theorem pdf_generators_equal_witness:
  "fst (generate_cover_letter_pdf line_lib (''Dear team,'' @ [CHR 0x0A] @ ''hello'')) =
     Some (encode_latin1 ''Dear team,hello'')"
proof -
  have "fst (generate_pdf_report line_lib (''Dear team,'' @ [CHR 0x0A] @ ''hello'')) =
     Some (encode_latin1 ''Dear team,hello'')"
    by (simp add: generate_pdf_report_def line_lib_def)
  with pdf_generators_equal [of line_lib "''Dear team,'' @ [CHR 0x0A] @ ''hello''"]
  show ?thesis by simp
qed

section \<open>Properties of the script after the analysis\<close>









lemma generate_pdf_report_success:
  assumes "FPDF lib = Inr p0" "add_page lib p0 = Inr p1" "set_font lib ''Arial'' 12 p1 = Inr p2"
    "multi_cell_lines lib (split_newline content) p2 = Inr p3" "output_str lib ''S'' p3 = Inr s"
  shows "generate_pdf_report lib content = (Some (encode_latin1 s), [])"
  using assms by (simp add: generate_pdf_report_def)

lemma generate_cover_letter_pdf_success:
  assumes "FPDF lib = Inr p0" "add_page lib p0 = Inr p1" "set_font lib ''Arial'' 12 p1 = Inr p2"
    "multi_cell_lines lib (split_newline content) p2 = Inr p3" "output_str lib ''S'' p3 = Inr s"
  shows "generate_cover_letter_pdf lib content = (Some (encode_latin1 s), [])"
  using assms by (simp add: generate_cover_letter_pdf_def)





section \<open>Properties of the evaluation of the skills payload\<close>


























text \<open>
  Claim C2 against the program. The captured payload goes to \<^verbatim>\<open>eval\<close> (the comment
  on the line says ``Safely convert string to dict''), which evaluates any expression:
  the payload \<^verbatim>\<open>{'x': 40+2}\<close> is no mapping literal, and it is not rejected but
  computed, and the radar chart is drawn for the value 42.
\<close>
theorem unsafe_eval_arithmetic:
  "skills_dict ''Skills Match: {'x': 40+2}'' = Some (Returned [(''x'', 42)]) \<and>
   skills_stage outside ''Skills Match: {'x': 40+2}'' =
     (case create_radar_chart [(''x'', 42)] ''Skills Overview'' of
        Some fig \<Rightarrow> [PyplotRadar fig]
      | None \<Rightarrow> [])"
proof -
  have rs: "re_search_skills ''Skills Match: {'x': 40+2}'' = Some ''{'x': 40+2}''" by code_simp
  have ev: "py_eval ''{'x': 40+2}'' = Returned [(''x'', 42)]" by code_simp
  show ?thesis
    by (simp only: skills_dict_def skills_stage_def rs ev option.case eval_result.case)
qed


end
